theory Spec2Isabelle
  imports Main
begin

section \<open>Strings, exceptions and Python helpers\<close>

text \<open>
  A Python \<open>str\<close> is a sequence of Unicode code points, and slicing and \<open>len\<close> count code
  points. Text is therefore a list of code points; ASCII literals are written with
  \<open>ascii\<close>, the other literals of the source are spelled out as code points.
\<close>

type_synonym ustr = "nat list"

definition ascii :: "string \<Rightarrow> ustr" where
  "ascii cs = map of_char cs"

text \<open>\<open>str.isspace\<close> of CPython, one character at a time.\<close>

definition isspace :: "nat \<Rightarrow> bool" where
  "isspace c \<longleftrightarrow>
     (9 \<le> c \<and> c \<le> 13) \<or> (28 \<le> c \<and> c \<le> 32) \<or> c = 133 \<or> c = 160 \<or> c = 5760 \<or>
     (8192 \<le> c \<and> c \<le> 8202) \<or> c = 8232 \<or> c = 8233 \<or> c = 8239 \<or> c = 8287 \<or> c = 12288"

text \<open>\<open>s.strip()\<close>: leading and trailing whitespace removed.\<close>

definition strip :: "ustr \<Rightarrow> ustr" where
  "strip s = rev (dropWhile isspace (rev (dropWhile isspace s)))"

text \<open>\<open>str(n)\<close> for an integer.\<close>

fun str_nat :: "nat \<Rightarrow> ustr" where
  "str_nat n = (if n < 10 then [48 + n] else str_nat (n div 10) @ [48 + n mod 10])"

declare str_nat.simps [simp del]

definition str_int :: "int \<Rightarrow> ustr" where
  "str_int i = (if i < 0 then 45 # str_nat (nat (- i)) else str_nat (nat i))"

text \<open>\<open>xs[:n]\<close>: a negative bound counts from the end.\<close>

definition slice_to :: "int \<Rightarrow> 'a list \<Rightarrow> 'a list" where
  "slice_to n xs = (if n < 0 then take (nat (int (length xs) + n)) xs else take (nat n) xs)"

text \<open>\<open>sep.join(xs)\<close>.\<close>

fun join :: "ustr \<Rightarrow> ustr list \<Rightarrow> ustr" where
  "join sep [] = []"
| "join sep [x] = x"
| "join sep (x # y # ys) = x @ sep @ join sep (y # ys)"

text \<open>
  Exceptions, told apart as far as the source tells them apart (\<open>json.JSONDecodeError\<close>
  against \<open>Exception\<close>), each with its message. \<open>str_exn e\<close> is what \<open>f"{e}"\<close> renders;
  for a \<open>KeyError\<close> that is the \<open>repr\<close> of the key.
\<close>

datatype exn = JSONDecodeError ustr | KeyError ustr | Error ustr

fun str_exn :: "exn \<Rightarrow> ustr" where
  "str_exn (JSONDecodeError m) = m"
| "str_exn (KeyError k) = [39] @ k @ [39]"
| "str_exn (Error m) = m"

text \<open>A \<open>dict\<close> with string keys and text values, in insertion order.\<close>

type_synonym dict = "(string \<times> ustr) list"

text \<open>\<open>d[k]\<close> and \<open>d.get(k, "")\<close>.\<close>

definition getitem :: "dict \<Rightarrow> string \<Rightarrow> exn + ustr" where
  "getitem d k = (case map_of d k of None \<Rightarrow> Inl (KeyError (ascii k)) | Some v \<Rightarrow> Inr v)"

definition get_or_empty :: "dict \<Rightarrow> string \<Rightarrow> ustr" where
  "get_or_empty d k = (case map_of d k of None \<Rightarrow> [] | Some v \<Rightarrow> v)"

section \<open>The outside world\<close>

text \<open>
  Filing tables (\<open>tools/mops_report.py\<close>): each entry of \<open>all_tables\<close> is a dict with
  \<open>table_index\<close>, \<open>preview\<close> and \<open>data\<close>.
\<close>

record table =
  table_index :: nat
  preview :: ustr
  data :: "(ustr \<times> ustr) list list"

text \<open>
  What lines 56-61 and 64 make of one table element: an exception (caught at line 67),
  or the preview text and the row records.
\<close>

type_synonym parsed_table = "exn + (ustr \<times> (ustr \<times> ustr) list list)"

text \<open>
  What the browser does for one filing URL. \<open>GetRaises\<close>: \<open>webdriver.Chrome(...)\<close> or
  \<open>driver.get(url)\<close> raises (lines 44-45, before the \<open>try\<close>). \<open>WaitRaises\<close>: the wait for a
  table element times out, or reading the page source raises (lines 48-51, inside the
  \<open>try\<close>). \<open>Rendered ts\<close>: the page came up and \<open>soup.find_all("table")\<close> is \<open>ts\<close>.
\<close>

datatype page = GetRaises exn | WaitRaises exn | Rendered "parsed_table list"

text \<open>
  What lines 71-72 do to the file: written; \<open>open\<close> raises and nothing is written; or
  \<open>json.dump\<close> raises part-way and leaves a file that is not JSON (the text is the message
  \<open>json.load\<close> will raise on it).
\<close>

datatype dumped = Written | OpenRaises exn | DumpRaises exn ustr

datatype stored = JsonFile "table list" | Garbled ustr

text \<open>One \<open>.box_2\<close> element of a search page: its \<open>h2 a\<close> tag (text and \<open>href\<close> attribute,
  either of which may be missing) and the text of its \<open>p.detail span.date\<close> tag.\<close>

record box =
  title_tag :: "(ustr \<times> ustr option) option"
  date_tag :: "ustr option"

text \<open>
  The value of \<open>reports\<close> in \<open>analyze_financial_data\<close>: the mapping of
  \<open>fetch_mops_report\<close>, or the one-entry error dict of line 79.
\<close>

datatype reports = Reports "ustr \<rightharpoonup> table list option" | ReportsError ustr

text \<open>
  Requests to the language model are kept by what is interpolated into the prompt, in
  the order of the f-string; the fixed wording around it is not modelled.
  \<open>ParsePrompt question\<close> is the prompt of \<open>parse_question\<close>,
  \<open>SummaryPrompt n question corpus\<close> the one of \<open>etnews_finance_summary\<close> / \<open>_gpt_answer\<close>,
  \<open>AnalysisPrompt company stock_id question n news_summary reports\<close> the one of
  \<open>analyze_financial_data\<close>.
\<close>

datatype prompt =
    ParsePrompt ustr
  | SummaryPrompt nat ustr ustr
  | AnalysisPrompt ustr ustr ustr nat ustr ustr

text \<open>Every request that leaves the process, by what is interpolated into its URL.\<close>

datatype request =
    SearchGet ustr int
  | ArticleGet ustr
  | FilingGet ustr int int
  | ChatCreate prompt

text \<open>
  The world answers each request. An answer may depend on when the request is made, so
  every network oracle takes the number of requests issued before it. \<open>search_page\<close>
  stands for lines 24-32 of \<open>news_summary.py\<close> (GET, \<open>raise_for_status\<close>, the \<open>.box_2\<close>
  elements of the parsed page), \<open>article_page\<close> for lines 44-48 (an exception, or the text
  of \<open>#main-content\<close> / \<open>.story\<close> if there is one), \<open>chat\<close> for
  \<open>client.chat.completions.create(...).choices[0].message.content\<close>. \<open>loads\<close> and \<open>dumps\<close>
  are \<open>json.loads\<close> (on an object with text fields, as the prompt asks for) and
  \<open>json.dumps(..., ensure_ascii=False, indent=2)\<close>; \<open>decimal\<close> is the character class of
  decimal digits.
  \<open>Options\<close>, \<open>driver.quit\<close>, \<open>print\<close> and the HTML parser are taken not to raise.
\<close>

record world =
  search_page :: "nat \<Rightarrow> ustr \<Rightarrow> int \<Rightarrow> exn + box list"
  article_page :: "nat \<Rightarrow> ustr \<Rightarrow> exn + ustr option"
  filing_page :: "nat \<Rightarrow> ustr \<Rightarrow> int \<Rightarrow> int \<Rightarrow> page"
  write_json :: "nat \<Rightarrow> ustr \<Rightarrow> dumped"
  chat :: "nat \<Rightarrow> prompt \<Rightarrow> exn + ustr"
  loads :: "ustr \<Rightarrow> exn + dict"
  dumps :: "reports \<Rightarrow> ustr"
  decimal :: "nat \<Rightarrow> bool"

text \<open>The state a call runs in: the requests issued so far and the files on disk.\<close>

record sys =
  trace :: "request list"
  files :: "ustr \<rightharpoonup> stored"

definition now :: "sys \<Rightarrow> nat" where
  "now s = length (trace s)"

definition issue :: "request \<Rightarrow> sys \<Rightarrow> sys" where
  "issue r s = s\<lparr>trace := trace s @ [r]\<rparr>"

section \<open>NewsFetcher: \<open>crawl_etnews_articles\<close> and \<open>_crawl_ettoday\<close>\<close>

text \<open>
  The search for the pattern of line 40 (four digits, a hyphen, two digits, a hyphen,
  two digits) in a text: the leftmost match, if any.
\<close>

fun date_here :: "(nat \<Rightarrow> bool) \<Rightarrow> ustr \<Rightarrow> bool" where
  "date_here d (y1 # y2 # y3 # y4 # h1 # m1 # m2 # h2 # d1 # d2 # rest) \<longleftrightarrow>
     d y1 \<and> d y2 \<and> d y3 \<and> d y4 \<and> h1 = 45 \<and> d m1 \<and> d m2 \<and> h2 = 45 \<and> d d1 \<and> d d2"
| "date_here d short \<longleftrightarrow> False"

fun search_date :: "(nat \<Rightarrow> bool) \<Rightarrow> ustr \<Rightarrow> ustr option" where
  "search_date d [] = None"
| "search_date d (c # cs) =
     (if date_here d (c # cs) then Some (take 10 (c # cs)) else search_date d cs)"

definition no_content :: ustr where
  "no_content = [40, 28961, 27861, 21462, 24471, 20839, 25991, 41]"

definition fetch_failed_prefix :: ustr where
  "fetch_failed_prefix = [40, 25235, 21462, 22833, 25943, 58, 32]"

text \<open>\<open>f"(<fetch failed>: {e})"\<close>, line 50.\<close>

definition fetch_failed :: "exn \<Rightarrow> ustr" where
  "fetch_failed e = fetch_failed_prefix @ str_exn e @ [41]"

text \<open>
  The body of the loop over boxes (lines 33-58). A box without title tag or date tag is
  skipped; \<open>title_tag["href"]\<close> on a tag without that attribute raises, outside any
  \<open>try\<close>; the article fetch is inside one.
\<close>

definition crawl_box :: "world \<Rightarrow> ustr \<Rightarrow> box \<Rightarrow> dict list \<Rightarrow> sys \<Rightarrow> (exn + dict list) \<times> sys" where
  "crawl_box w keyword b articles s =
     (case title_tag b of
        None \<Rightarrow> (Inr articles, s)
      | Some (title_text, href) \<Rightarrow>
          (case date_tag b of
             None \<Rightarrow> (Inr articles, s)
           | Some date_text \<Rightarrow>
               (case href of
                  None \<Rightarrow> (Inl (KeyError (ascii ''href'')), s)
                | Some link \<Rightarrow>
                    (let title = strip title_text;
                         news_date = (case search_date (decimal w) date_text of
                                        Some m \<Rightarrow> m | None \<Rightarrow> []);
                         content = (case article_page w (now s) link of
                                      Inl e \<Rightarrow> fetch_failed e
                                    | Inr None \<Rightarrow> no_content
                                    | Inr (Some text) \<Rightarrow> text)
                     in (Inr (articles @
                           [[(''title'', title), (''link'', link), (''date'', news_date),
                             (''content'', content), (''keyword'', keyword)]]),
                         issue (ArticleGet link) s)))))"

fun crawl_boxes :: "world \<Rightarrow> ustr \<Rightarrow> box list \<Rightarrow> dict list \<Rightarrow> sys \<Rightarrow> (exn + dict list) \<times> sys" where
  "crawl_boxes w keyword [] articles s = (Inr articles, s)"
| "crawl_boxes w keyword (b # bs) articles s =
     (case crawl_box w keyword b articles s of
        (Inl e, s') \<Rightarrow> (Inl e, s')
      | (Inr articles', s') \<Rightarrow> crawl_boxes w keyword bs articles' s')"

text \<open>The loop over pages (lines 21-32): a page whose fetch fails is skipped.\<close>

fun crawl_pages :: "world \<Rightarrow> ustr \<Rightarrow> int list \<Rightarrow> dict list \<Rightarrow> sys \<Rightarrow> (exn + dict list) \<times> sys" where
  "crawl_pages w keyword [] articles s = (Inr articles, s)"
| "crawl_pages w keyword (p # ps) articles s =
     (case search_page w (now s) keyword p of
        Inl e \<Rightarrow> crawl_pages w keyword ps articles (issue (SearchGet keyword p) s)
      | Inr boxes \<Rightarrow>
          (case crawl_boxes w keyword boxes articles (issue (SearchGet keyword p) s) of
             (Inl e, s') \<Rightarrow> (Inl e, s')
           | (Inr articles', s') \<Rightarrow> crawl_pages w keyword ps articles' s'))"

text \<open>\<open>tools/news_summary.py\<close>; \<open>range(1, pages + 1)\<close> is \<open>[1..pages]\<close>.\<close>

definition crawl_etnews_articles :: "world \<Rightarrow> ustr \<Rightarrow> int \<Rightarrow> sys \<Rightarrow> (exn + dict list) \<times> sys" where
  "crawl_etnews_articles w keyword pages s = crawl_pages w keyword [1..pages] [] s"

text \<open>\<open>mc.py\<close>: the same loops, without the log line for a failed page.\<close>

definition crawl_ettoday :: "world \<Rightarrow> ustr \<Rightarrow> int \<Rightarrow> sys \<Rightarrow> (exn + dict list) \<times> sys" where
  "crawl_ettoday w keyword pages s = crawl_pages w keyword [1..pages] [] s"

section \<open>FilingFetcher: \<open>fetch_mops_report\<close>\<close>

text \<open>\<open>f"{stock_id}_{year}Q{season}"\<close> and \<open>f"{key}.json"\<close>.\<close>

definition composite_key :: "ustr \<Rightarrow> int \<Rightarrow> int \<Rightarrow> ustr" where
  "composite_key stock_id year season = stock_id @ [95] @ str_int year @ [81] @ str_int season"

definition filename :: "ustr \<Rightarrow> ustr" where
  "filename key = key @ ascii ''.json''"

text \<open>
  The loop over \<open>enumerate(tables[:5])\<close> (lines 54-69): a table whose parsing raises is
  skipped, and \<open>table_index\<close> is the position in the page, not in \<open>all_tables\<close>.
\<close>

fun parse_tables :: "nat \<Rightarrow> parsed_table list \<Rightarrow> table list" where
  "parse_tables idx [] = []"
| "parse_tables idx (Inl e # ts) = parse_tables (Suc idx) ts"
| "parse_tables idx (Inr (pv, rows) # ts) =
     \<lparr>table_index = idx, preview = pv, data = rows\<rparr> # parse_tables (Suc idx) ts"

text \<open>
  The body of the innermost loop (lines 31-77) for one combination. \<open>all_results\<close> maps a
  key to a table list or to \<open>None\<close>. An existing file is loaded (line 35, outside any
  \<open>try\<close>); otherwise the browser is started and sent to the URL (lines 44-45, outside the
  \<open>try\<close>), and the rest runs under \<open>try ... except Exception\<close>, where line 70 sets the
  entry, lines 71-72 write the file and line 75 overwrites the entry with \<open>None\<close>.
\<close>

definition fetch_one ::
  "world \<Rightarrow> ustr \<Rightarrow> int \<Rightarrow> int \<Rightarrow> (ustr \<rightharpoonup> table list option) \<Rightarrow> sys
     \<Rightarrow> (exn + (ustr \<rightharpoonup> table list option)) \<times> sys" where
  "fetch_one w stock_id year season all_results s =
     (let key = composite_key stock_id year season in
      case files s (filename key) of
        Some (JsonFile tables) \<Rightarrow> (Inr (all_results(key \<mapsto> Some tables)), s)
      | Some (Garbled m) \<Rightarrow> (Inl (JSONDecodeError m), s)
      | None \<Rightarrow>
          (let s1 = issue (FilingGet stock_id year season) s in
           case filing_page w (now s) stock_id year season of
             GetRaises e \<Rightarrow> (Inl e, s1)
           | WaitRaises e \<Rightarrow> (Inr (all_results(key \<mapsto> None)), s1)
           | Rendered ts \<Rightarrow>
               (let all_tables = parse_tables 0 (slice_to 5 ts) in
                case write_json w (now s1) (filename key) of
                  Written \<Rightarrow>
                    (Inr (all_results(key \<mapsto> Some all_tables)),
                     s1\<lparr>files := (files s1)(filename key \<mapsto> JsonFile all_tables)\<rparr>)
                | OpenRaises e \<Rightarrow> (Inr (all_results(key \<mapsto> None)), s1)
                | DumpRaises e m \<Rightarrow>
                    (Inr (all_results(key \<mapsto> None)),
                     s1\<lparr>files := (files s1)(filename key \<mapsto> Garbled m)\<rparr>))))"

text \<open>The three nested loops (lines 28-30); an exception leaves all of them.\<close>

fun for_seasons ::
  "world \<Rightarrow> ustr \<Rightarrow> int \<Rightarrow> int list \<Rightarrow> (ustr \<rightharpoonup> table list option) \<Rightarrow> sys
     \<Rightarrow> (exn + (ustr \<rightharpoonup> table list option)) \<times> sys" where
  "for_seasons w stock_id year [] all_results s = (Inr all_results, s)"
| "for_seasons w stock_id year (season # seasons) all_results s =
     (case fetch_one w stock_id year season all_results s of
        (Inl e, s') \<Rightarrow> (Inl e, s')
      | (Inr all_results', s') \<Rightarrow> for_seasons w stock_id year seasons all_results' s')"

fun for_years ::
  "world \<Rightarrow> ustr \<Rightarrow> int list \<Rightarrow> int list \<Rightarrow> (ustr \<rightharpoonup> table list option) \<Rightarrow> sys
     \<Rightarrow> (exn + (ustr \<rightharpoonup> table list option)) \<times> sys" where
  "for_years w stock_id [] seasons all_results s = (Inr all_results, s)"
| "for_years w stock_id (year # years) seasons all_results s =
     (case for_seasons w stock_id year seasons all_results s of
        (Inl e, s') \<Rightarrow> (Inl e, s')
      | (Inr all_results', s') \<Rightarrow> for_years w stock_id years seasons all_results' s')"

fun for_stocks ::
  "world \<Rightarrow> ustr list \<Rightarrow> int list \<Rightarrow> int list \<Rightarrow> (ustr \<rightharpoonup> table list option) \<Rightarrow> sys
     \<Rightarrow> (exn + (ustr \<rightharpoonup> table list option)) \<times> sys" where
  "for_stocks w [] years seasons all_results s = (Inr all_results, s)"
| "for_stocks w (stock_id # stock_ids) years seasons all_results s =
     (case for_years w stock_id years seasons all_results s of
        (Inl e, s') \<Rightarrow> (Inl e, s')
      | (Inr all_results', s') \<Rightarrow> for_stocks w stock_ids years seasons all_results' s')"

text \<open>
  \<open>fetch_mops_report\<close>: the arguments are already strings and integers, so lines 23-25
  leave them as they are.
\<close>

definition fetch_mops_report ::
  "world \<Rightarrow> ustr list \<Rightarrow> int list \<Rightarrow> int list \<Rightarrow> sys
     \<Rightarrow> (exn + (ustr \<rightharpoonup> table list option)) \<times> sys" where
  "fetch_mops_report w stock_ids years seasons s =
     for_stocks w stock_ids years seasons Map.empty s"

text \<open>
  The combinations in the order the loops visit them (stock id outermost, season
  innermost), and their composite keys.
\<close>

definition combos :: "ustr list \<Rightarrow> int list \<Rightarrow> int list \<Rightarrow> (ustr \<times> int \<times> int) list" where
  "combos stock_ids years seasons =
     concat (map (\<lambda>stock_id. concat (map (\<lambda>year. map (\<lambda>season. (stock_id, year, season)) seasons) years))
       stock_ids)"

definition key_of :: "ustr \<times> int \<times> int \<Rightarrow> ustr" where
  "key_of c = (case c of (stock_id, year, season) \<Rightarrow> composite_key stock_id year season)"

definition requested_keys :: "ustr list \<Rightarrow> int list \<Rightarrow> int list \<Rightarrow> ustr list" where
  "requested_keys stock_ids years seasons = map key_of (combos stock_ids years seasons)"

text \<open>The loop body run over a list of combinations. The nested loops are this run
  over \<open>combos\<close>, which lemma \<open>for_stocks_run\<close> proves.\<close>

fun run_combos ::
  "world \<Rightarrow> (ustr \<times> int \<times> int) list \<Rightarrow> (ustr \<rightharpoonup> table list option) \<Rightarrow> sys
     \<Rightarrow> (exn + (ustr \<rightharpoonup> table list option)) \<times> sys" where
  "run_combos w [] all_results s = (Inr all_results, s)"
| "run_combos w (c # cs) all_results s =
     (case fetch_one w (fst c) (fst (snd c)) (snd (snd c)) all_results s of
        (Inl e, s') \<Rightarrow> (Inl e, s')
      | (Inr all_results', s') \<Rightarrow> run_combos w cs all_results' s')"


section \<open>IntentParser: \<open>parse_question\<close>\<close>

definition parse_failed_prefix :: ustr where
  "parse_failed_prefix = [35299, 26512, 22833, 25943, 65306]"

definition parse_failed_json_prefix :: ustr where
  "parse_failed_json_prefix =
     [35299, 26512, 22833, 25943, 65306, 28961, 27861, 35299, 26512, 32, 74, 83, 79, 78, 58, 32]"

text \<open>
  \<open>mc.py\<close>: the model call is outside the \<open>try\<close>; \<open>json.loads\<close> is inside, under
  \<open>except Exception\<close>.
\<close>

definition mc_parse_question :: "world \<Rightarrow> ustr \<Rightarrow> sys \<Rightarrow> (exn + dict) \<times> sys" where
  "mc_parse_question w question s =
     (let s1 = issue (ChatCreate (ParsePrompt question)) s in
      case chat w (now s) (ParsePrompt question) of
        Inl e \<Rightarrow> (Inl e, s1)
      | Inr content \<Rightarrow>
          (let result = strip content in
           case loads w result of
             Inl e \<Rightarrow> (Inr [(''error'', parse_failed_prefix @ str_exn e), (''raw'', result)], s1)
           | Inr parsed \<Rightarrow> (Inr parsed, s1)))"

text \<open>
  \<open>mo.py\<close>: everything is inside the \<open>try\<close>, with one handler for
  \<open>json.JSONDecodeError\<close> and one for any other exception.
\<close>

definition mo_parse_question :: "world \<Rightarrow> ustr \<Rightarrow> sys \<Rightarrow> (exn + dict) \<times> sys" where
  "mo_parse_question w question s =
     (let s1 = issue (ChatCreate (ParsePrompt question)) s in
      case chat w (now s) (ParsePrompt question) of
        Inl e \<Rightarrow> (Inr [(''error'', parse_failed_prefix @ str_exn e)], s1)
      | Inr content \<Rightarrow>
          (let result = strip content in
           case loads w result of
             Inl (JSONDecodeError m) \<Rightarrow>
               (Inr [(''error'', parse_failed_json_prefix @ m), (''raw'', result)], s1)
           | Inl e \<Rightarrow> (Inr [(''error'', parse_failed_prefix @ str_exn e)], s1)
           | Inr parsed \<Rightarrow> (Inr parsed, s1)))"

section \<open>EvidenceAssembler and Synthesizer\<close>

definition blk1 :: ustr where "blk1 = [12304, 31532, 32]"
definition blk2 :: ustr where "blk2 = [32, 31687, 12305, 10, 27161, 38988, 65306]"
definition blk3 :: ustr where "blk3 = [10, 36899, 32080, 65306]"
definition blk4 :: ustr where "blk4 = [10, 20839, 25991, 65306, 10]"

text \<open>The body of an article as it goes into a block: \<open>a['content'][:3000]\<close>.\<close>

definition block_body :: "ustr \<Rightarrow> ustr" where
  "block_body content = slice_to 3000 content"

text \<open>
  One numbered block, for the article at position \<open>i\<close> of the enumeration: the header
  with \<open>i + 1\<close>, the title line, the link line, the body. The same f-string stands
  in \<open>mo.py\<close> (line 134), \<open>mc.py\<close> (line 131) and \<open>server.py\<close> (line 72).
\<close>

definition article_block :: "nat \<Rightarrow> dict \<Rightarrow> exn + ustr" where
  "article_block i a =
     (case getitem a ''title'' of
        Inl e \<Rightarrow> Inl e
      | Inr title \<Rightarrow>
          (case getitem a ''link'' of
             Inl e \<Rightarrow> Inl e
           | Inr link \<Rightarrow>
               (case getitem a ''content'' of
                  Inl e \<Rightarrow> Inl e
                | Inr content \<Rightarrow>
                    Inr (blk1 @ str_nat (i + 1) @ blk2 @ title @ blk3 @ link @ blk4 @
                         block_body content @ [10]))))"

fun docs_from :: "nat \<Rightarrow> dict list \<Rightarrow> exn + ustr list" where
  "docs_from i [] = Inr []"
| "docs_from i (a # as) =
     (case article_block i a of
        Inl e \<Rightarrow> Inl e
      | Inr d \<Rightarrow> (case docs_from (Suc i) as of Inl e \<Rightarrow> Inl e | Inr ds \<Rightarrow> Inr (d # ds)))"

text \<open>\<open>[f"..." for i, a in enumerate(articles[:limit])]\<close>.\<close>

definition docs :: "int \<Rightarrow> dict list \<Rightarrow> exn + ustr list" where
  "docs limit articles = docs_from 0 (slice_to limit articles)"

datatype answer = Text ustr | ErrorDict dict

definition question_parse_failed_prefix :: ustr where
  "question_parse_failed_prefix = [21839, 38988, 35299, 26512, 22833, 25943, 65306]"

definition no_keyword :: ustr where
  "no_keyword = [9888, 65039, 32, 28961, 27861, 32068, 20986, 26377, 25928, 38364, 37749, 23383]"

text \<open>The advisory of line 131 of \<open>mo.py\<close> (line 170 of \<open>mc.py\<close>): a warning sign
  (U+26A0 U+FE0F), a space, and the sentence.\<close>

definition no_news :: ustr where
  "no_news = [9888, 65039, 32, 25214, 19981, 21040, 31526, 21512, 26781, 20214, 30340, 26032,
     32862, 12290, 35531, 25563, 20491, 21839, 38988, 35430, 35430, 12290]"

definition gpt_failed_prefix :: ustr where
  "gpt_failed_prefix = [10060, 32, 71, 80, 84, 32, 20998, 26512, 22833, 25943, 65306]"

text \<open>The error dict of lines 119-123 (\<open>mo.py\<close>) and 157-161 (\<open>mc.py\<close>).\<close>

definition parse_error_result :: "dict \<Rightarrow> ustr \<Rightarrow> answer" where
  "parse_error_result parsed err =
     ErrorDict [(''status'', ascii ''error''), (''message'', question_parse_failed_prefix @ err),
                (''raw'', get_or_empty parsed ''raw'')]"

text \<open>\<open>f"{parsed.get('company', '')}{parsed.get('topic', '')}".strip()\<close>.\<close>

definition keyword_of :: "dict \<Rightarrow> ustr" where
  "keyword_of parsed = strip (get_or_empty parsed ''company'' @ get_or_empty parsed ''topic'')"

text \<open>\<open>etnews_finance_summary\<close> of \<open>mo.py\<close>: the model call is under \<open>try ... except\<close>.\<close>

definition mo_etnews_finance_summary ::
  "world \<Rightarrow> ustr \<Rightarrow> int \<Rightarrow> int \<Rightarrow> sys \<Rightarrow> (exn + answer) \<times> sys" where
  "mo_etnews_finance_summary w question pages limit s =
     (case mo_parse_question w question s of
        (Inl e, s1) \<Rightarrow> (Inl e, s1)
      | (Inr parsed, s1) \<Rightarrow>
          (case map_of parsed ''error'' of
             Some err \<Rightarrow> (Inr (parse_error_result parsed err), s1)
           | None \<Rightarrow>
               (let keyword = keyword_of parsed in
                if keyword = [] then (Inr (Text no_keyword), s1)
                else
                  (case crawl_etnews_articles w keyword pages s1 of
                     (Inl e, s2) \<Rightarrow> (Inl e, s2)
                   | (Inr articles, s2) \<Rightarrow>
                       if articles = [] then (Inr (Text no_news), s2)
                       else
                         (case docs limit articles of
                            Inl e \<Rightarrow> (Inl e, s2)
                          | Inr ds \<Rightarrow>
                              (let corpus = join [10] ds;
                                   p = SummaryPrompt (length (slice_to limit articles)) question corpus
                               in case chat w (now s2) p of
                                    Inl e \<Rightarrow>
                                      (Inr (Text (gpt_failed_prefix @ str_exn e)),
                                       issue (ChatCreate p) s2)
                                  | Inr content \<Rightarrow>
                                      (Inr (Text (strip content)), issue (ChatCreate p) s2)))))))"

text \<open>\<open>_gpt_answer\<close> of \<open>mc.py\<close>: no \<open>try\<close> around the model call.\<close>

definition gpt_answer :: "world \<Rightarrow> ustr \<Rightarrow> dict list \<Rightarrow> sys \<Rightarrow> (exn + answer) \<times> sys" where
  "gpt_answer w question articles s =
     (case docs_from 0 articles of
        Inl e \<Rightarrow> (Inl e, s)
      | Inr ds \<Rightarrow>
          (let corpus = join [10] ds;
               p = SummaryPrompt (length articles) question corpus
           in case chat w (now s) p of
                Inl e \<Rightarrow> (Inl e, issue (ChatCreate p) s)
              | Inr content \<Rightarrow> (Inr (Text (strip content)), issue (ChatCreate p) s)))"

text \<open>\<open>etnews_finance_summary\<close> of \<open>mc.py\<close>.\<close>

definition mc_etnews_finance_summary ::
  "world \<Rightarrow> ustr \<Rightarrow> int \<Rightarrow> int \<Rightarrow> sys \<Rightarrow> (exn + answer) \<times> sys" where
  "mc_etnews_finance_summary w question pages limit s =
     (case mc_parse_question w question s of
        (Inl e, s1) \<Rightarrow> (Inl e, s1)
      | (Inr parsed, s1) \<Rightarrow>
          (case map_of parsed ''error'' of
             Some err \<Rightarrow> (Inr (parse_error_result parsed err), s1)
           | None \<Rightarrow>
               (let keyword = keyword_of parsed in
                if keyword = [] then (Inr (Text no_keyword), s1)
                else
                  (case crawl_ettoday w keyword pages s1 of
                     (Inl e, s2) \<Rightarrow> (Inl e, s2)
                   | (Inr articles, s2) \<Rightarrow>
                       if articles = [] then (Inr (Text no_news), s2)
                       else gpt_answer w question (slice_to limit articles) s2))))"

section \<open>The combined pipeline: \<open>analyze_financial_data\<close>\<close>










section \<open>Predicates and scenarios used in the statements\<close>

text \<open>The keys of an article record, and what a well-formed article of a crawl for
  \<open>keyword\<close> looks like.\<close>

definition article_keys :: "string list" where
  "article_keys = [''title'', ''link'', ''date'', ''content'', ''keyword'']"

definition is_article :: "ustr \<Rightarrow> dict \<Rightarrow> bool" where
  "is_article keyword a \<longleftrightarrow> map fst a = article_keys \<and> map_of a ''keyword'' = Some keyword"

text \<open>A box that line 36 does not skip.\<close>

definition candidate :: "box \<Rightarrow> bool" where
  "candidate b \<longleftrightarrow> title_tag b \<noteq> None \<and> date_tag b \<noteq> None"


text \<open>No file on disk is unreadable.\<close>

definition readable :: "sys \<Rightarrow> bool" where
  "readable s \<longleftrightarrow> (\<forall>f m. files s f \<noteq> Some (Garbled m))"

text \<open>
  A world in which nothing can be reached: every fetch times out, the browser cannot
  load a page, the model call fails and no text parses as JSON. The scenarios below
  change one oracle at a time.
\<close>

definition offline :: world where
  "offline =
     \<lparr>search_page = (\<lambda>t k p. Inl (Error (ascii ''timed out''))),
      article_page = (\<lambda>t l. Inl (Error (ascii ''timed out''))),
      filing_page = (\<lambda>t sid y q. GetRaises (Error (ascii ''unreachable''))),
      write_json = (\<lambda>t f. Written),
      chat = (\<lambda>t p. Inl (Error (ascii ''Connection error.''))),
      loads = (\<lambda>s. Inl (JSONDecodeError (ascii ''Expecting value''))),
      dumps = (\<lambda>r. []),
      decimal = (\<lambda>c. 48 \<le> c \<and> c \<le> 57)\<rparr>"

text \<open>A fresh process: no request issued, no file on disk.\<close>

definition boot :: sys where
  "boot = \<lparr>trace = [], files = Map.empty\<rparr>"

text \<open>
  Page 1 of the search lists one complete candidate and one box without a title tag;
  the article itself cannot be fetched.
\<close>

definition hit_box :: box where
  "hit_box = \<lparr>title_tag = Some (ascii '' TSMC '', Some (ascii ''u/1'')),
               date_tag = Some (ascii ''(2024-05-06 10:00)'')\<rparr>"

definition bare_box :: box where
  "bare_box = \<lparr>title_tag = None, date_tag = Some (ascii ''2024-05-06'')\<rparr>"

definition one_hit :: world where
  "one_hit = offline\<lparr>search_page := (\<lambda>t k p.
     if p = 1 then Inr [hit_box, bare_box] else Inl (Error (ascii ''404'')))\<rparr>"

text \<open>The article that a crawl for \<open>TSMC\<close> makes of \<open>hit_box\<close> in that world.\<close>

definition hit_article :: dict where
  "hit_article =
     [(''title'', ascii ''TSMC''), (''link'', ascii ''u/1''), (''date'', ascii ''2024-05-06''),
      (''content'', fetch_failed_prefix @ ascii ''timed out'' @ [41]),
      (''keyword'', ascii ''TSMC'')]"

text \<open>
  Filing scenarios. The page of a filing has one table that parses and one that does
  not; \<open>q1_tables\<close> is what \<open>fetch_mops_report\<close> makes of it.
\<close>

definition tsmc :: ustr where
  "tsmc = ascii ''2330''"

definition q1_page :: "parsed_table list" where
  "q1_page =
     [Inr (ascii ''Revenue 100'', [[(ascii ''Item'', ascii ''Revenue''), (ascii ''Amount'', ascii ''100'')]]),
      Inl (Error (ascii ''No tables found''))]"




text \<open>The browser cannot load the page of season 1; every other page renders.\<close>

definition flaky :: world where
  "flaky = offline\<lparr>filing_page := (\<lambda>t sid y q.
     if q = 1 then GetRaises (Error (ascii ''net::ERR_CONNECTION_RESET'')) else Rendered q1_page)\<rparr>"

text \<open>Requests by kind: the fetches of the news crawl, the model calls that ask for the
  final summary, and the filing retrievals.\<close>

definition is_news :: "request \<Rightarrow> bool" where
  "is_news r = (case r of SearchGet k p \<Rightarrow> True | ArticleGet l \<Rightarrow> True | _ \<Rightarrow> False)"

definition is_synthesis :: "request \<Rightarrow> bool" where
  "is_synthesis r = (case r of ChatCreate (SummaryPrompt n q c) \<Rightarrow> True | _ \<Rightarrow> False)"


text \<open>An article that has the three fields a block reads.\<close>

definition has_fields :: "dict \<Rightarrow> bool" where
  "has_fields a \<longleftrightarrow>
     map_of a ''title'' \<noteq> None \<and> map_of a ''link'' \<noteq> None \<and> map_of a ''content'' \<noteq> None"

text \<open>The advisory as the specification quotes it: the sentence of \<open>no_news\<close> without
  the warning sign and the space in front.\<close>

definition quoted_advisory :: ustr where
  "quoted_advisory = [25214, 19981, 21040, 31526, 21512, 26781, 20214, 30340, 26032,
     32862, 12290, 35531, 25563, 20491, 21839, 38988, 35430, 35430, 12290]"

text \<open>
  Pipeline scenarios. The model answers the parse prompt with a JSON object, which
  \<open>json.loads\<close> turns into \<open>intent\<close>; every other model call fails. The search is the
  one of \<open>one_hit\<close>.
\<close>

definition asked :: ustr where
  "asked = ascii ''Will the TSMC dividend move the share price?''"

definition reply :: ustr where
  "reply = ascii ''{\"company\": \"TSMC\", \"stock_id\": \"2330\", \"topic\": \"\"}''"

definition intent :: dict where
  "intent = [(''company'', ascii ''TSMC''), (''stock_id'', ascii ''2330''), (''topic'', [])]"

definition understood :: world where
  "understood = one_hit
     \<lparr>chat := (\<lambda>t p. case p of ParsePrompt q \<Rightarrow> Inr reply
                          | _ \<Rightarrow> Inl (Error (ascii ''Connection error.''))),
      loads := (\<lambda>s. if s = reply then Inr intent
                     else Inl (JSONDecodeError (ascii ''Expecting value'')))\<rparr>"

text \<open>The same, with a search that finds nothing on any page.\<close>

definition barren :: world where
  "barren = understood\<lparr>search_page := (\<lambda>t k p. Inr [])\<rparr>"








section \<open>Lemmas about the news crawl\<close>

lemma crawl_box_step:
  "crawl_box w keyword b articles s = (Inr articles', s') \<Longrightarrow>
     (articles' = articles \<and> \<not> candidate b) \<or> (candidate b \<and> (\<exists>a. articles' = articles @ [a] \<and> is_article keyword a))"
  by (auto simp: crawl_box_def candidate_def is_article_def article_keys_def Let_def split: option.splits prod.splits sum.splits)

lemma crawl_boxes_grow:
  "crawl_boxes w keyword bs articles s = (Inr articles', s') \<Longrightarrow>
     \<exists>new. articles' = articles @ new \<and> length new = length (filter candidate bs) \<and> (\<forall>a\<in>set new. is_article keyword a)"
proof (induction bs arbitrary: articles s)
  case Nil
  then show ?case by simp
next
  case (Cons b bs)
  from Cons.prems obtain mid s1 where
    step: "crawl_box w keyword b articles s = (Inr mid, s1)" and
    rest: "crawl_boxes w keyword bs mid s1 = (Inr articles', s')"
    by (auto split: prod.splits sum.splits)
  from Cons.IH [OF rest] obtain new where
    new: "articles' = mid @ new" "length new = length (filter candidate bs)" "\<forall>a\<in>set new. is_article keyword a"
    by blast
  from crawl_box_step [OF step] show ?case
  proof
    assume "mid = articles \<and> \<not> candidate b"
    with new show ?thesis by auto
  next
    assume "candidate b \<and> (\<exists>a. mid = articles @ [a] \<and> is_article keyword a)"
    then obtain a where "candidate b" "mid = articles @ [a]" "is_article keyword a" by blast
    with new have "articles' = articles @ (a # new) \<and> length (a # new) = length (filter candidate (b # bs)) \<and> (\<forall>x\<in>set (a # new). is_article keyword x)"
      by simp
    then show ?thesis by blast
  qed
qed

lemma crawl_pages_articles:
  "crawl_pages w keyword ps articles s = (Inr articles', s') \<Longrightarrow>
     \<forall>a\<in>set articles. is_article keyword a \<Longrightarrow> \<forall>a\<in>set articles'. is_article keyword a"
proof (induction ps arbitrary: articles s)
  case Nil
  then show ?case by simp
next
  case (Cons p ps)
  show ?case
  proof (cases "search_page w (now s) keyword p")
    case (Inl e)
    with Cons.prems(1) have "crawl_pages w keyword ps articles (issue (SearchGet keyword p) s) = (Inr articles', s')"
      by simp
    from Cons.IH [OF this Cons.prems(2)] show ?thesis .
  next
    case (Inr boxes)
    with Cons.prems(1) obtain mid s1 where
      page: "crawl_boxes w keyword boxes articles (issue (SearchGet keyword p) s) = (Inr mid, s1)" and
      rest: "crawl_pages w keyword ps mid s1 = (Inr articles', s')"
      by (auto split: prod.splits sum.splits)
    from crawl_boxes_grow [OF page] Cons.prems(2) have "\<forall>a\<in>set mid. is_article keyword a"
      by auto
    from Cons.IH [OF rest this] show ?thesis .
  qed
qed

lemma crawl_either:
  "crawl_etnews_articles w keyword pages s = (Inr articles, s') \<or>
   crawl_ettoday w keyword pages s = (Inr articles, s') \<Longrightarrow>
     crawl_pages w keyword [1..pages] [] s = (Inr articles, s')"
  by (auto simp: crawl_etnews_articles_def crawl_ettoday_def)


lemma one_hit_run:
  "crawl_pages one_hit (ascii ''TSMC'') [1..1] [] boot =
     (Inr [hit_article],
      \<lparr>trace = [SearchGet (ascii ''TSMC'') 1, ArticleGet (ascii ''u/1'')], files = Map.empty\<rparr>)"
  by (simp add: one_hit_def offline_def boot_def crawl_box_def now_def issue_def
      hit_box_def bare_box_def hit_article_def fetch_failed_def
      strip_def isspace_def ascii_def upto.simps Let_def)

section \<open>Lemmas about the filing fetch\<close>

lemma fetch_one_cases:
  assumes "fetch_one w stock_id year season r s = (Inr r', s')"
  shows "(\<exists>tables. files s (filename (composite_key stock_id year season)) = Some (JsonFile tables) \<and>
            r' = r(composite_key stock_id year season \<mapsto> Some tables) \<and> s' = s) \<or>
         (files s (filename (composite_key stock_id year season)) = None \<and>
            r' = r(composite_key stock_id year season \<mapsto> None) \<and>
            (files s' = files s \<or>
             (\<exists>m. files s' = (files s)(filename (composite_key stock_id year season) \<mapsto> Garbled m)))) \<or>
         (\<exists>tables. files s (filename (composite_key stock_id year season)) = None \<and>
            r' = r(composite_key stock_id year season \<mapsto> Some tables) \<and>
            files s' = (files s)(filename (composite_key stock_id year season) \<mapsto> JsonFile tables))"
proof (cases "files s (filename (composite_key stock_id year season))")
  case (Some f)
  with assms show ?thesis
    by (cases f) (simp_all add: fetch_one_def)
next
  case None
  show ?thesis
  proof (cases "filing_page w (now s) stock_id year season")
    case (GetRaises e)
    with None assms show ?thesis by (simp add: fetch_one_def Let_def)
  next
    case (WaitRaises e)
    with None assms show ?thesis by (auto simp: fetch_one_def Let_def issue_def)
  next
    case (Rendered ts)
    show ?thesis
    proof (cases "write_json w (now (issue (FilingGet stock_id year season) s))
                    (filename (composite_key stock_id year season))")
      case Written
      with None Rendered assms show ?thesis by (auto simp: fetch_one_def Let_def issue_def)
    next
      case (OpenRaises e)
      with None Rendered assms show ?thesis by (auto simp: fetch_one_def Let_def issue_def)
    next
      case (DumpRaises e m)
      with None Rendered assms show ?thesis by (auto simp: fetch_one_def Let_def issue_def)
    qed
  qed
qed


lemma fetch_one_dom:
  "fetch_one w stock_id year season r s = (Inr r', s') \<Longrightarrow>
     dom r' = insert (composite_key stock_id year season) (dom r)"
  by (drule fetch_one_cases) auto



lemma key_of_eq: "key_of c = composite_key (fst c) (fst (snd c)) (snd (snd c))"
  by (simp add: key_of_def split: prod.splits)

lemma run_combos_append:
  "run_combos w (xs @ ys) r s =
     (case run_combos w xs r s of (Inl e, s') \<Rightarrow> (Inl e, s') | (Inr r', s') \<Rightarrow> run_combos w ys r' s')"
  by (induction xs arbitrary: r s) (auto split: prod.splits sum.splits)

lemma for_seasons_run:
  "for_seasons w stock_id year seasons r s =
     run_combos w (map (\<lambda>season. (stock_id, year, season)) seasons) r s"
  by (induction seasons arbitrary: r s) (auto split: prod.splits sum.splits)

lemma for_years_run:
  "for_years w stock_id years seasons r s =
     run_combos w (concat (map (\<lambda>year. map (\<lambda>season. (stock_id, year, season)) seasons) years)) r s"
  by (induction years arbitrary: r s)
     (auto simp: run_combos_append for_seasons_run split: prod.splits sum.splits)

lemma for_stocks_run:
  "for_stocks w stock_ids years seasons r s = run_combos w (combos stock_ids years seasons) r s"
  by (induction stock_ids arbitrary: r s)
     (auto simp: combos_def run_combos_append for_years_run split: prod.splits sum.splits)

lemma run_combos_step:
  assumes "run_combos w (c # cs) r s = (Inr r', s')"
  obtains mid s1 where
    "fetch_one w (fst c) (fst (snd c)) (snd (snd c)) r s = (Inr mid, s1)"
    "run_combos w cs mid s1 = (Inr r', s')"
  using assms by (auto split: prod.splits sum.splits)

lemma run_combos_dom:
  "run_combos w cs r s = (Inr r', s') \<Longrightarrow> dom r' = dom r \<union> key_of ` set cs"
proof (induction cs arbitrary: r s)
  case Nil
  then show ?case by simp
next
  case (Cons c cs)
  from Cons.prems obtain mid s1 where
    step: "fetch_one w (fst c) (fst (snd c)) (snd (snd c)) r s = (Inr mid, s1)" and
    rest: "run_combos w cs mid s1 = (Inr r', s')"
    by (rule run_combos_step)
  from fetch_one_dom [OF step] Cons.IH [OF rest] show ?case
    by (auto simp: key_of_eq)
qed

lemma fetch_mops_report_complete:
  "fetch_mops_report w stock_ids years seasons s = (Inr m, s') \<Longrightarrow>
     dom m = set (requested_keys stock_ids years seasons)"
  using run_combos_dom [of w "combos stock_ids years seasons" Map.empty s m s']
  by (simp add: fetch_mops_report_def for_stocks_run requested_keys_def)



text \<open>
  When the browser always starts and loads, no write breaks off part-way and no file
  on disk is unreadable, no exception leaves the loops.
\<close>

lemma fetch_one_returns:
  assumes "\<forall>t sid y q e. filing_page w t sid y q \<noteq> GetRaises e"
    and "\<forall>t f e m. write_json w t f \<noteq> DumpRaises e m"
    and "readable s"
  shows "\<exists>r' s'. fetch_one w stock_id year season r s = (Inr r', s') \<and> readable s'"
proof (cases "files s (filename (composite_key stock_id year season))")
  case (Some f)
  with assms(3) show ?thesis
    by (cases f) (auto simp: fetch_one_def readable_def)
next
  case None
  show ?thesis
  proof (cases "filing_page w (now s) stock_id year season")
    case (GetRaises e)
    with assms(1) show ?thesis by simp
  next
    case (WaitRaises e)
    with None assms(3) show ?thesis
      by (simp add: fetch_one_def Let_def issue_def readable_def)
  next
    case (Rendered ts)
    show ?thesis
    proof (cases "write_json w (now (issue (FilingGet stock_id year season) s))
                    (filename (composite_key stock_id year season))")
      case Written
      with None Rendered assms(3) show ?thesis
        by (simp add: fetch_one_def Let_def issue_def readable_def)
    next
      case (OpenRaises e)
      with None Rendered assms(3) show ?thesis
        by (simp add: fetch_one_def Let_def issue_def readable_def)
    next
      case (DumpRaises e m)
      with assms(2) show ?thesis by simp
    qed
  qed
qed

lemma run_combos_returns:
  assumes "\<forall>t sid y q e. filing_page w t sid y q \<noteq> GetRaises e"
    and "\<forall>t f e m. write_json w t f \<noteq> DumpRaises e m"
  shows "readable s \<Longrightarrow> \<exists>r' s'. run_combos w cs r s = (Inr r', s')"
proof (induction cs arbitrary: r s)
  case Nil
  then show ?case by simp
next
  case (Cons c cs)
  from fetch_one_returns [OF assms Cons.prems] obtain mid s1 where
    step: "fetch_one w (fst c) (fst (snd c)) (snd (snd c)) r s = (Inr mid, s1)" and "readable s1"
    by blast
  from Cons.IH [OF \<open>readable s1\<close>] obtain r' s' where "run_combos w cs mid s1 = (Inr r', s')"
    by blast
  with step show ?case by simp
qed

lemma fetch_mops_report_returns:
  assumes "\<forall>t sid y q e. filing_page w t sid y q \<noteq> GetRaises e"
    and "\<forall>t f e m. write_json w t f \<noteq> DumpRaises e m"
    and "readable s"
  shows "\<exists>m s'. fetch_mops_report w stock_ids years seasons s = (Inr m, s') \<and>
           dom m = set (requested_keys stock_ids years seasons)"
proof -
  from run_combos_returns [OF assms] obtain m s' where
    "run_combos w (combos stock_ids years seasons) Map.empty s = (Inr m, s')"
    by blast
  then have "fetch_mops_report w stock_ids years seasons s = (Inr m, s')"
    by (simp add: fetch_mops_report_def for_stocks_run)
  with fetch_mops_report_complete [OF this] show ?thesis by blast
qed



section \<open>Lemmas about the requests a crawl issues\<close>

lemma crawl_box_trace:
  "crawl_box w keyword b articles s = (r, s') \<Longrightarrow>
     \<exists>rs. trace s' = trace s @ rs \<and> (\<forall>x\<in>set rs. is_news x) \<and> files s' = files s"
  by (auto simp: crawl_box_def Let_def issue_def is_news_def split: option.splits prod.splits)

lemma crawl_boxes_trace:
  "crawl_boxes w keyword bs articles s = (r, s') \<Longrightarrow>
     \<exists>rs. trace s' = trace s @ rs \<and> (\<forall>x\<in>set rs. is_news x) \<and> files s' = files s"
proof (induction bs arbitrary: articles s)
  case Nil
  then show ?case by simp
next
  case (Cons b bs)
  obtain r1 s1 where step: "crawl_box w keyword b articles s = (r1, s1)"
    by (cases "crawl_box w keyword b articles s")
  from crawl_box_trace [OF step] obtain rs1 where
    one: "trace s1 = trace s @ rs1" "\<forall>x\<in>set rs1. is_news x" "files s1 = files s"
    by blast
  show ?case
  proof (cases r1)
    case (Inl e)
    with Cons.prems step one show ?thesis by auto
  next
    case (Inr mid)
    with Cons.prems step have "crawl_boxes w keyword bs mid s1 = (r, s')" by simp
    from Cons.IH [OF this] obtain rs2 where
      "trace s' = trace s1 @ rs2" "\<forall>x\<in>set rs2. is_news x" "files s' = files s1"
      by blast
    with one have "trace s' = trace s @ (rs1 @ rs2) \<and> (\<forall>x\<in>set (rs1 @ rs2). is_news x) \<and> files s' = files s"
      by auto
    then show ?thesis by blast
  qed
qed

lemma crawl_pages_trace:
  "crawl_pages w keyword ps articles s = (r, s') \<Longrightarrow>
     \<exists>rs. trace s' = trace s @ rs \<and> (\<forall>x\<in>set rs. is_news x) \<and> files s' = files s"
proof (induction ps arbitrary: articles s)
  case Nil
  then show ?case by simp
next
  case (Cons p ps)
  let ?s0 = "issue (SearchGet keyword p) s"
  have s0: "trace ?s0 = trace s @ [SearchGet keyword p]" "files ?s0 = files s"
    by (simp_all add: issue_def)
  have tail: "\<exists>rs. trace s' = trace s @ rs \<and> (\<forall>x\<in>set rs. is_news x) \<and> files s' = files s"
    if "trace s' = trace ?s0 @ rs" "\<forall>x\<in>set rs. is_news x" "files s' = files ?s0" for rs
  proof -
    from that s0 have "trace s' = trace s @ (SearchGet keyword p # rs) \<and>
        (\<forall>x\<in>set (SearchGet keyword p # rs). is_news x) \<and> files s' = files s"
      by (simp add: is_news_def)
    then show ?thesis by blast
  qed
  show ?case
  proof (cases "search_page w (now s) keyword p")
    case (Inl e)
    with Cons.prems have "crawl_pages w keyword ps articles ?s0 = (r, s')" by simp
    from Cons.IH [OF this] tail show ?thesis by blast
  next
    case (Inr boxes)
    obtain r1 s1 where page: "crawl_boxes w keyword boxes articles ?s0 = (r1, s1)"
      by (cases "crawl_boxes w keyword boxes articles ?s0")
    from crawl_boxes_trace [OF page] obtain rs1 where
      one: "trace s1 = trace ?s0 @ rs1" "\<forall>x\<in>set rs1. is_news x" "files s1 = files ?s0"
      by blast
    show ?thesis
    proof (cases r1)
      case (Inl e)
      with Cons.prems Inr page have "s' = s1" by simp
      with one tail show ?thesis by blast
    next
      case r1: (Inr mid)
      with Cons.prems Inr page have "crawl_pages w keyword ps mid s1 = (r, s')" by simp
      from Cons.IH [OF this] obtain rs2 where
        "trace s' = trace s1 @ rs2" "\<forall>x\<in>set rs2. is_news x" "files s' = files s1"
        by blast
      with one have "trace s' = trace ?s0 @ (rs1 @ rs2)" "\<forall>x\<in>set (rs1 @ rs2). is_news x"
          "files s' = files ?s0"
        by auto
      with tail show ?thesis by blast
    qed
  qed
qed

lemma news_not_synthesis: "\<forall>x\<in>set rs. is_news x \<Longrightarrow> filter is_synthesis rs = []"
  by (induction rs) (auto simp: is_news_def is_synthesis_def split: request.splits)



section \<open>Lemmas about parsing, assembling and answering\<close>

lemmas scen_defs = understood_def one_hit_def offline_def boot_def hit_box_def bare_box_def
  hit_article_def reply_def intent_def asked_def

lemmas run_defs = now_def issue_def strip_def isspace_def ascii_def Let_def keyword_of_def
  get_or_empty_def getitem_def crawl_box_def fetch_failed_def slice_to_def

lemma mo_summary_catches:
  "fst (mo_etnews_finance_summary understood asked 1 5 boot) =
     Inr (Text (gpt_failed_prefix @ ascii ''Connection error.''))"
  by (simp add: mo_etnews_finance_summary_def mo_parse_question_def crawl_etnews_articles_def docs_def
      article_block_def upto.simps scen_defs run_defs)

lemma parse_ok:
  assumes "chat w (now s) (ParsePrompt question) = Inr content"
    and "loads w (strip content) = Inr parsed"
  shows "mo_parse_question w question s = (Inr parsed, issue (ChatCreate (ParsePrompt question)) s)"
    and "mc_parse_question w question s = (Inr parsed, issue (ChatCreate (ParsePrompt question)) s)"
  using assms by (simp_all add: mo_parse_question_def mc_parse_question_def Let_def)

lemma summary_call_failure:
  assumes "chat w (now s) (ParsePrompt question) = Inr content"
    and "loads w (strip content) = Inr parsed"
    and "map_of parsed ''error'' = None"
    and "keyword_of parsed \<noteq> []"
    and "crawl_pages w (keyword_of parsed) [1..pages] []
           (issue (ChatCreate (ParsePrompt question)) s) = (Inr articles, s2)"
    and "articles \<noteq> []"
    and "docs limit articles = Inr ds"
    and "chat w (now s2)
           (SummaryPrompt (length (slice_to limit articles)) question (join [10] ds)) = Inl e"
  shows "mo_etnews_finance_summary w question pages limit s =
           (Inr (Text (gpt_failed_prefix @ str_exn e)),
            issue (ChatCreate (SummaryPrompt (length (slice_to limit articles)) question (join [10] ds))) s2)"
    and "mc_etnews_finance_summary w question pages limit s =
           (Inl e,
            issue (ChatCreate (SummaryPrompt (length (slice_to limit articles)) question (join [10] ds))) s2)"
proof -
  from assms(7) have d: "docs_from 0 (slice_to limit articles) = Inr ds"
    by (simp add: docs_def)
  show "mo_etnews_finance_summary w question pages limit s =
           (Inr (Text (gpt_failed_prefix @ str_exn e)),
            issue (ChatCreate (SummaryPrompt (length (slice_to limit articles)) question (join [10] ds))) s2)"
    using assms
    by (simp add: mo_etnews_finance_summary_def parse_ok crawl_etnews_articles_def Let_def)
  show "mc_etnews_finance_summary w question pages limit s =
           (Inl e,
            issue (ChatCreate (SummaryPrompt (length (slice_to limit articles)) question (join [10] ds))) s2)"
    using assms d
    by (simp add: mc_etnews_finance_summary_def parse_ok crawl_ettoday_def gpt_answer_def Let_def)
qed

lemmas barren_defs = barren_def understood_def one_hit_def offline_def boot_def reply_def intent_def

lemma block_body_length: "length (block_body content) \<le> 3000"
  by (simp add: block_body_def slice_to_def)

lemma article_block_ok:
  assumes "has_fields a"
  shows "\<exists>title link content.
           map_of a ''title'' = Some title \<and> map_of a ''link'' = Some link \<and>
           map_of a ''content'' = Some content \<and>
           article_block i a =
             Inr (blk1 @ str_nat (i + 1) @ blk2 @ title @ blk3 @ link @ blk4 @ block_body content @ [10])"
  using assms by (auto simp: has_fields_def article_block_def getitem_def)

lemma docs_from_ok:
  "\<forall>a\<in>set as. has_fields a \<Longrightarrow>
     \<exists>ds. docs_from i as = Inr ds \<and> length ds = length as \<and>
          (\<forall>j<length as. article_block (i + j) (as ! j) = Inr (ds ! j))"
proof (induction as arbitrary: i)
  case Nil
  then show ?case by simp
next
  case (Cons a as)
  from Cons.prems have "has_fields a" by simp
  from article_block_ok [OF this, of i] obtain d where d: "article_block i a = Inr d" by blast
  from Cons.prems have "\<forall>x\<in>set as. has_fields x" by simp
  from Cons.IH [OF this, of "Suc i"] obtain ds where
    ds: "docs_from (Suc i) as = Inr ds" "length ds = length as"
      "\<forall>j<length as. article_block (Suc i + j) (as ! j) = Inr (ds ! j)"
    by blast
  have "\<forall>j<length (a # as). article_block (i + j) ((a # as) ! j) = Inr ((d # ds) ! j)"
  proof (intro allI impI)
    fix j assume "j < length (a # as)"
    then show "article_block (i + j) ((a # as) ! j) = Inr ((d # ds) ! j)"
      using d ds(3) by (cases j) auto
  qed
  with d ds(1,2) show ?case by simp
qed

lemma hit_fields: "has_fields hit_article"
  by (simp add: has_fields_def hit_article_def)



lemma mo_parse_returns:
  "\<exists>parsed. fst (mo_parse_question w question s) = Inr parsed"
  by (simp add: mo_parse_question_def Let_def split: sum.splits exn.splits)







section \<open>The claims\<close>

text \<open>
  C1. The claim: \<open>fetch_mops_report\<close> returns a mapping with an entry for every composite
  key, and a failure of one combination (deadline, no tables, fetch error) gives a null
  entry without aborting the others. At the input below the browser cannot load the
  page of the first combination: \<open>driver.get\<close> stands before the \<open>try\<close>, so the exception
  leaves the function, no mapping is returned and the second combination is never
  visited. (Lemma \<open>fetch_mops_report_returns\<close> above is the case the code does cover.)
\<close>

theorem one_failed_get_aborts:
  "fetch_mops_report flaky [tsmc] [2024] [1, 2] boot =
     (Inl (Error (ascii ''net::ERR_CONNECTION_RESET'')),
      \<lparr>trace = [FilingGet tsmc 2024 1], files = Map.empty\<rparr>)"
  by (simp add: fetch_mops_report_def fetch_one_def flaky_def offline_def boot_def now_def issue_def
      Let_def)









text \<open>
  C5. The claim: a failure of the final model call becomes an error string, never an
  exception. In \<open>mc.py\<close> the call in \<open>_gpt_answer\<close> has no \<open>try\<close>: at the input below the
  question parses, one article is found, the model call fails and the exception leaves
  \<open>etnews_finance_summary\<close>. (\<open>mo.py\<close> catches it: lemmas \<open>mo_summary_catches\<close> and
  \<open>summary_call_failure\<close>.)
\<close>

theorem mc_summary_raises:
  "fst (mc_etnews_finance_summary understood asked 1 5 boot) = Inl (Error (ascii ''Connection error.''))"
  by (simp add: mc_etnews_finance_summary_def mc_parse_question_def crawl_ettoday_def gpt_answer_def
      article_block_def upto.simps scen_defs run_defs)




text \<open>
  C7, as amended. For every \<open>limit \<ge> 0\<close> and every list of articles that have a title, a
  link and a content, the blocks of the corpus are the renderings of the first \<open>limit\<close>
  articles, in order and numbered from 1: there are \<open>min limit (len articles)\<close> of them,
  so at most \<open>limit\<close>, and the body of each is the first 3000 characters of the content.
  (\<open>mo.py\<close> joins \<open>docs limit articles\<close>; \<open>mc.py\<close> passes \<open>articles[:limit]\<close> to
  \<open>_gpt_answer\<close>, which builds the same list.)
\<close>

theorem corpus_bounded:
  assumes "0 \<le> limit" and "\<forall>a\<in>set articles. has_fields a"
  shows "\<exists>ds. docs limit articles = Inr ds \<and>
           length ds = min (nat limit) (length articles) \<and> int (length ds) \<le> limit \<and>
           (\<forall>j<length ds. \<exists>title link content.
              map_of (articles ! j) ''title'' = Some title \<and>
              map_of (articles ! j) ''link'' = Some link \<and>
              map_of (articles ! j) ''content'' = Some content \<and>
              ds ! j = blk1 @ str_nat (j + 1) @ blk2 @ title @ blk3 @ link @ blk4 @
                       block_body content @ [10] \<and>
              block_body content = take 3000 content \<and> length (block_body content) \<le> 3000)"
proof -
  let ?kept = "take (nat limit) articles"
  from assms(1) have kept: "slice_to limit articles = ?kept"
    by (simp add: slice_to_def)
  from assms(2) have "\<forall>a\<in>set ?kept. has_fields a"
    by (auto dest: in_set_takeD)
  from docs_from_ok [OF this, of 0] obtain ds where
    ds: "docs_from 0 ?kept = Inr ds" "length ds = length ?kept"
      "\<forall>j<length ?kept. article_block j (?kept ! j) = Inr (ds ! j)"
    by auto
  have blocks: "\<exists>title link content.
              map_of (articles ! j) ''title'' = Some title \<and>
              map_of (articles ! j) ''link'' = Some link \<and>
              map_of (articles ! j) ''content'' = Some content \<and>
              ds ! j = blk1 @ str_nat (j + 1) @ blk2 @ title @ blk3 @ link @ blk4 @
                       block_body content @ [10] \<and>
              block_body content = take 3000 content \<and> length (block_body content) \<le> 3000"
    if j: "j < length ds" for j
  proof -
    from j ds(2) have jk: "j < length ?kept" by simp
    then have same: "?kept ! j = articles ! j" by simp
    from jk have "articles ! j \<in> set articles" by simp
    with assms(2) have "has_fields (articles ! j)" by blast
    from article_block_ok [OF this, of j] ds(3) jk same show ?thesis
      by (auto simp: block_body_length) (simp add: block_body_def slice_to_def)
  qed
  from assms(1) ds(2) have "length ds = min (nat limit) (length articles)" "int (length ds) \<le> limit"
    by simp_all
  with ds(1) kept blocks show ?thesis
    by (auto simp: docs_def)
qed

theorem corpus_bounded_witness:
  "(0::int) \<le> 1 \<and> has_fields hit_article \<and>
   (\<exists>ds. docs 1 [hit_article, hit_article] = Inr ds \<and>
         length ds = min (nat 1) (length [hit_article, hit_article]) \<and> int (length ds) \<le> 1)"
proof -
  have "\<forall>a\<in>set [hit_article, hit_article]. has_fields a"
    by (simp add: hit_fields)
  from corpus_bounded [OF _ this, of 1] hit_fields show ?thesis
    by auto
qed

text \<open>
  C7 as stated fails for a negative limit: \<open>articles[:-1]\<close> drops the last article only,
  so two articles and \<open>limit = -1\<close> give one block, more than \<open>limit\<close>.
\<close>

theorem negative_limit_keeps_articles:
  "docs (- 1) [hit_article, hit_article] =
     Inr [blk1 @ ascii ''1'' @ blk2 @ ascii ''TSMC'' @ blk3 @ ascii ''u/1'' @ blk4 @
          fetch_failed_prefix @ ascii ''timed out'' @ [41] @ [10]] \<and>
   \<not> int (length [blk1 @ ascii ''1'' @ blk2 @ ascii ''TSMC'' @ blk3 @ ascii ''u/1'' @ blk4 @
          fetch_failed_prefix @ ascii ''timed out'' @ [41] @ [10]]) \<le> - 1"
  by (simp add: docs_def slice_to_def article_block_def getitem_def hit_article_def block_body_def
      fetch_failed_prefix_def str_nat.simps ascii_def)

text \<open>
  C8, as amended. When the question parses, the keyword is not empty and the crawl finds
  no article on any requested page, both variants of \<open>etnews_finance_summary\<close> return the
  advisory of the source, which is the warning sign U+26A0 U+FE0F, a space and the
  sentence, and stop in the state the crawl left: no request for the final summary
  has been issued.
\<close>

theorem no_news_advisory:
  assumes "chat w (now s) (ParsePrompt question) = Inr content"
    and "loads w (strip content) = Inr parsed"
    and "map_of parsed ''error'' = None"
    and "keyword_of parsed \<noteq> []"
    and "crawl_etnews_articles w (keyword_of parsed) pages
           (issue (ChatCreate (ParsePrompt question)) s) = (Inr [], s2)"
  shows "mo_etnews_finance_summary w question pages limit s = (Inr (Text no_news), s2) \<and>
         mc_etnews_finance_summary w question pages limit s = (Inr (Text no_news), s2) \<and>
         filter is_synthesis (trace s2) = filter is_synthesis (trace s)"
proof -
  from assms(5) have crawl: "crawl_pages w (keyword_of parsed) [1..pages] []
      (issue (ChatCreate (ParsePrompt question)) s) = (Inr [], s2)"
    by (simp add: crawl_etnews_articles_def)
  from crawl_pages_trace [OF crawl] obtain rs where
    "trace s2 = trace (issue (ChatCreate (ParsePrompt question)) s) @ rs" "\<forall>x\<in>set rs. is_news x"
    by blast
  then have "filter is_synthesis (trace s2) = filter is_synthesis (trace s)"
    by (simp add: issue_def news_not_synthesis is_synthesis_def)
  with assms(1-4) crawl show ?thesis
    by (simp add: mo_etnews_finance_summary_def mc_etnews_finance_summary_def parse_ok
        crawl_etnews_articles_def crawl_ettoday_def Let_def)
qed

theorem no_news_advisory_witness:
  "mo_etnews_finance_summary barren asked 2 5 boot =
     (Inr (Text no_news),
      \<lparr>trace = [ChatCreate (ParsePrompt asked), SearchGet (ascii ''TSMC'') 1, SearchGet (ascii ''TSMC'') 2],
       files = Map.empty\<rparr>) \<and>
   mc_etnews_finance_summary barren asked 2 5 boot =
     (Inr (Text no_news),
      \<lparr>trace = [ChatCreate (ParsePrompt asked), SearchGet (ascii ''TSMC'') 1, SearchGet (ascii ''TSMC'') 2],
       files = Map.empty\<rparr>)"
proof -
  have c: "chat barren (now boot) (ParsePrompt asked) = Inr reply"
    by (simp add: barren_defs)
  have l: "loads barren (strip reply) = Inr intent"
    by (simp add: barren_defs strip_def isspace_def ascii_def)
  have e: "map_of intent ''error'' = None"
    by (simp add: intent_def)
  have k: "keyword_of intent = ascii ''TSMC''"
    by (simp add: intent_def keyword_of_def get_or_empty_def strip_def isspace_def ascii_def)
  have k0: "keyword_of intent \<noteq> []"
    by (simp add: k ascii_def)
  have run: "crawl_etnews_articles barren (keyword_of intent) 2 (issue (ChatCreate (ParsePrompt asked)) boot) =
     (Inr [],
      \<lparr>trace = [ChatCreate (ParsePrompt asked), SearchGet (ascii ''TSMC'') 1, SearchGet (ascii ''TSMC'') 2],
       files = Map.empty\<rparr>)"
    by (simp add: k crawl_etnews_articles_def barren_def understood_def one_hit_def offline_def
        boot_def issue_def now_def upto.simps)
  from no_news_advisory [OF c l e k0 run] show ?thesis by simp
qed

text \<open>
  C8 as stated fails on the returned string: it is not the sentence alone, as quoted,
  but the sentence with the warning sign and a space in front.
\<close>

theorem advisory_has_warning_sign:
  "fst (mo_etnews_finance_summary barren asked 2 5 boot) = Inr (Text ([9888, 65039, 32] @ quoted_advisory)) \<and>
   fst (mc_etnews_finance_summary barren asked 2 5 boot) = Inr (Text ([9888, 65039, 32] @ quoted_advisory)) \<and>
   Text ([9888, 65039, 32] @ quoted_advisory) \<noteq> Text quoted_advisory"
  by (simp add: mo_etnews_finance_summary_def mc_etnews_finance_summary_def mo_parse_question_def
      mc_parse_question_def crawl_etnews_articles_def crawl_ettoday_def upto.simps barren_defs
      run_defs no_news_def quoted_advisory_def)

text \<open>
  C9. For every keyword and every \<open>pages \<le> 0\<close>, \<open>crawl_etnews_articles\<close> (and its copy
  \<open>_crawl_ettoday\<close>) returns the empty list and leaves the state as it was: no search
  and no article fetch has been issued.
\<close>

theorem crawl_nonpositive_pages:
  "pages \<le> 0 \<Longrightarrow>
     crawl_etnews_articles w keyword pages s = (Inr [], s) \<and>
     crawl_ettoday w keyword pages s = (Inr [], s)"
  by (simp add: crawl_etnews_articles_def crawl_ettoday_def)

theorem crawl_nonpositive_pages_witness:
  "(0::int) \<le> 0 \<and> crawl_etnews_articles one_hit (ascii ''TSMC'') 0 boot = (Inr [], boot) \<and>
     crawl_ettoday one_hit (ascii ''TSMC'') 0 boot = (Inr [], boot)"
  using crawl_nonpositive_pages [of 0 one_hit "ascii ''TSMC''" boot] by simp

text \<open>
  C10. Every article in the list returned by \<open>crawl_etnews_articles\<close> (and by
  \<open>_crawl_ettoday\<close>) has its \<open>keyword\<close> field equal to the keyword the call was made with.
\<close>

theorem crawl_keyword_field:
  "crawl_etnews_articles w keyword pages s = (Inr articles, s') \<or>
   crawl_ettoday w keyword pages s = (Inr articles, s') \<Longrightarrow>
     \<forall>a\<in>set articles. map_of a ''keyword'' = Some keyword"
proof -
  assume "crawl_etnews_articles w keyword pages s = (Inr articles, s') \<or>
   crawl_ettoday w keyword pages s = (Inr articles, s')"
  then have "crawl_pages w keyword [1..pages] [] s = (Inr articles, s')"
    by (rule crawl_either)
  from crawl_pages_articles [OF this] show ?thesis
    by (simp add: is_article_def)
qed

theorem crawl_keyword_field_witness:
  "crawl_etnews_articles one_hit (ascii ''TSMC'') 1 boot =
     (Inr [hit_article],
      \<lparr>trace = [SearchGet (ascii ''TSMC'') 1, ArticleGet (ascii ''u/1'')], files = Map.empty\<rparr>) \<and>
   map_of hit_article ''keyword'' = Some (ascii ''TSMC'')"
proof -
  have run: "crawl_etnews_articles one_hit (ascii ''TSMC'') 1 boot =
     (Inr [hit_article],
      \<lparr>trace = [SearchGet (ascii ''TSMC'') 1, ArticleGet (ascii ''u/1'')], files = Map.empty\<rparr>)"
    using one_hit_run by (simp add: crawl_etnews_articles_def)
  from crawl_keyword_field [OF disjI1, OF run] run show ?thesis by simp
qed

end
